theory Spec2Isabelle
  imports Complex_Main
begin

section \<open>Python values shared by the modules\<close>

text \<open>
  Strings are HOL strings: every character is a code point below 256. Python strings with
  code points beyond that range are not represented.

  A Python float is \<open>Finite r\<close> for a real \<open>r\<close>, one of the two infinities, or NaN.
  Arithmetic on finite values is exact: rounding is not modelled, and no theorem below
  depends on the digits of a result, only on signs, on zero and on which operations raise.
  Negative zero is not distinguished from zero (the code never tells them apart).
\<close>

datatype pyfloat = Finite real | PosInf | NegInf | NaN

datatype py_exception =
    TimeoutExpired          \<comment> \<open>subprocess.TimeoutExpired\<close>
  | FileNotFoundError       \<comment> \<open>a subclass of OSError\<close>
  | OSError                 \<comment> \<open>any other OSError\<close>
  | JSONDecodeError         \<comment> \<open>a subclass of ValueError\<close>
  | ValueError              \<comment> \<open>any other ValueError\<close>
  | ZeroDivisionError
  | OverflowError
  | TypeError
  | AttributeError
  | IndexError
  | KeyError
  | InvalidImageDataError   \<comment> \<open>piexif.InvalidImageDataError\<close>
  | OtherException string   \<comment> \<open>any other subclass of Exception\<close>

text \<open>What \<open>json.loads\<close> returns: the decoded value, a dict being its list of items.\<close>

datatype json =
    JNull
  | JBool bool
  | JInt int
  | JFloat pyfloat
  | JStr string
  | JArr "json list"
  | JObj "(string \<times> json) list"





text \<open>\<open>str.lower()\<close> on code points below 256: A-Z and the Latin-1 capitals.\<close>

definition lower_char :: "char \<Rightarrow> char" where
  "lower_char c =
     (let n = (of_char c :: nat)
      in if (65 \<le> n \<and> n \<le> 90) \<or> (192 \<le> n \<and> n \<le> 222 \<and> n \<noteq> 215)
         then char_of (n + 32) else c)"

definition lower :: "string \<Rightarrow> string" where
  "lower s = map lower_char s"

text \<open>\<open>needle in haystack\<close> for strings.\<close>

fun str_contains :: "string \<Rightarrow> string \<Rightarrow> bool" where
  "str_contains needle [] = (needle = [])"
| "str_contains needle (c # cs) =
     (take (length needle) (c # cs) = needle \<or> str_contains needle cs)"



text \<open>
  What the functions below take from the Python runtime and the operating system.
  Every theorem holds for every such environment.
\<close>

record completed_process =
  returncode :: int
  stdout :: string

record py_env =
  os_name :: string
    \<comment> \<open>\<open>os.name\<close>\<close>
  normpath :: "string \<Rightarrow> string"
    \<comment> \<open>\<open>os.path.normpath\<close>\<close>
  subprocess_run :: "string list \<Rightarrow> nat \<Rightarrow> py_exception + completed_process"
    \<comment> \<open>\<open>subprocess.run(cmd, capture_output=True, text=True, timeout=t)\<close>\<close>
  json_loads :: "string \<Rightarrow> json option"
    \<comment> \<open>\<open>json.loads\<close>; \<open>None\<close> when it raises JSONDecodeError\<close>
  float_of_str :: "string \<Rightarrow> pyfloat option"
    \<comment> \<open>\<open>float(s)\<close> on a string; \<open>None\<close> when it raises ValueError\<close>
  str_of_json :: "json \<Rightarrow> string"
    \<comment> \<open>\<open>str(x)\<close> on a decoded value that is not a string\<close>


section \<open>colorspace.py\<close>

datatype ColorPrimaries = CP_BT709 | CP_BT2020 | CP_DISPLAY_P3 | CP_UNKNOWN

datatype TransferFunction = TF_BT709 | TF_SRGB | TF_PQ | TF_HLG | TF_UNKNOWN

datatype ColorMatrix = CM_BT709 | CM_BT2020_NCL | CM_BT2020_CL | CM_UNKNOWN

record VideoColorInfo =
  color_primaries :: ColorPrimaries
  transfer_function :: TransferFunction
  color_matrix :: ColorMatrix
  is_hdr :: bool
  max_luminance :: "pyfloat option"

definition needs_conversion :: "VideoColorInfo \<Rightarrow> bool" where
  "needs_conversion info =
     (if is_hdr info then True
      else if color_primaries info \<notin> set [CP_BT709, CP_UNKNOWN] then True
      else if transfer_function info \<notin> set [TF_BT709, TF_SRGB, TF_UNKNOWN] then True
      else False)"

definition is_wide_gamut_sdr :: "VideoColorInfo \<Rightarrow> bool" where
  "is_wide_gamut_sdr info =
     (color_primaries info \<in> set [CP_DISPLAY_P3, CP_BT2020] \<and> \<not> is_hdr info)"

text \<open>
  \<open>check_zscale_available\<close>: runs \<open>ffmpeg -filters\<close>; the three listed exceptions give
  False, any other exception leaves the function.
\<close>

definition check_zscale_available :: "py_env \<Rightarrow> py_exception + bool" where
  "check_zscale_available env =
     (let ffmpeg_executable = (if os_name env = ''nt'' then ''ffmpeg.exe'' else ''ffmpeg'')
      in case subprocess_run env [ffmpeg_executable, ''-filters''] 10 of
           Inr result \<Rightarrow> Inr (str_contains ''zscale'' (stdout result))
         | Inl e \<Rightarrow> (if e \<in> set [TimeoutExpired, FileNotFoundError, OSError]
                      then Inr False else Inl e))"

text \<open>
  The module global \<open>_zscale_available\<close> is the process state: \<open>None\<close> until the first
  probe has returned. \<open>is_zscale_available\<close> reads it and fills it.
\<close>

type_synonym zscale_cache = "bool option"

definition is_zscale_available ::
  "py_env \<Rightarrow> zscale_cache \<Rightarrow> (py_exception + bool) \<times> zscale_cache" where
  "is_zscale_available env cache =
     (case cache of
        Some b \<Rightarrow> (Inr b, cache)
      | None \<Rightarrow> (case check_zscale_available env of
                   Inl e \<Rightarrow> (Inl e, None)
                 | Inr b \<Rightarrow> (Inr b, Some b)))"

definition map_color_primaries :: "string \<Rightarrow> ColorPrimaries" where
  "map_color_primaries v =
     (if v = [] then CP_UNKNOWN
      else (case map_of [(''bt709'', CP_BT709),
                         (''bt2020'', CP_BT2020),
                         (''smpte432'', CP_DISPLAY_P3)] (lower v) of
              Some p \<Rightarrow> p | None \<Rightarrow> CP_UNKNOWN))"

definition map_transfer_function :: "string \<Rightarrow> TransferFunction" where
  "map_transfer_function v =
     (if v = [] then TF_UNKNOWN
      else (case map_of [(''bt709'', TF_BT709),
                         (''iec61966-2-1'', TF_SRGB),
                         (''smpte2084'', TF_PQ),
                         (''arib-std-b67'', TF_HLG)] (lower v) of
              Some t \<Rightarrow> t | None \<Rightarrow> TF_UNKNOWN))"

definition map_color_matrix :: "string \<Rightarrow> ColorMatrix" where
  "map_color_matrix v =
     (if v = [] then CM_UNKNOWN
      else (case map_of [(''bt709'', CM_BT709),
                         (''bt2020nc'', CM_BT2020_NCL),
                         (''bt2020c'', CM_BT2020_CL)] (lower v) of
              Some m \<Rightarrow> m | None \<Rightarrow> CM_UNKNOWN))"









definition build_hdr_to_sdr_filter ::
  "py_env \<Rightarrow> VideoColorInfo \<Rightarrow> zscale_cache \<Rightarrow> (py_exception + string) \<times> zscale_cache" where
  "build_hdr_to_sdr_filter env info cache =
     (case is_zscale_available env cache of
        (Inl e, cache') \<Rightarrow> (Inl e, cache')
      | (Inr b, cache') \<Rightarrow>
          (Inr (if b
                then ''zscale=t=linear:npl=100,'' @
                     ''format=gbrpf32le,'' @
                     ''zscale=p=bt709,'' @
                     ''tonemap=hable:desat=0,'' @
                     ''zscale=t=bt709:m=bt709:r=tv,'' @
                     ''format=yuv420p''
                else ''colorspace=all=bt709:fast=0''), cache'))"

definition build_wide_gamut_to_srgb_filter :: "VideoColorInfo \<Rightarrow> string" where
  "build_wide_gamut_to_srgb_filter info =
     (let input_primaries =
            (if color_primaries info = CP_DISPLAY_P3 then ''smpte432''
             else if color_primaries info = CP_BT2020 then ''bt2020''
             else ''bt709'')
      in ''colorspace=all=bt709:iall='' @ input_primaries @ '':fast=0'')"

text \<open>
  \<open>build_colorspace_filter\<close> takes the colour info only; the zscale flag comes from the
  process state, which the call may fill. The inner \<open>option\<close> is Python's \<open>Optional[str]\<close>.
\<close>

definition build_colorspace_filter ::
  "py_env \<Rightarrow> VideoColorInfo \<Rightarrow> zscale_cache
     \<Rightarrow> (py_exception + string option) \<times> zscale_cache" where
  "build_colorspace_filter env info cache =
     (if \<not> needs_conversion info then (Inr None, cache)
      else if is_hdr info then
        (case build_hdr_to_sdr_filter env info cache of
           (Inl e, cache') \<Rightarrow> (Inl e, cache')
         | (Inr f, cache') \<Rightarrow> (Inr (Some f), cache'))
      else if is_wide_gamut_sdr info then
        (Inr (Some (build_wide_gamut_to_srgb_filter info)), cache)
      else (Inr None, cache))"

section \<open>gps_extractor.py\<close>

record GPSData =
  latitude :: pyfloat
  longitude :: pyfloat
  altitude :: pyfloat
  accuracy :: "pyfloat option"

text \<open>\<open>str.strip()\<close>: the characters below 256 for which \<open>str.isspace\<close> holds.\<close>

definition is_space :: "char \<Rightarrow> bool" where
  "is_space c =
     (let n = (of_char c :: nat)
      in (9 \<le> n \<and> n \<le> 13) \<or> (28 \<le> n \<and> n \<le> 32) \<or> n = 133 \<or> n = 160)"

definition strip :: "string \<Rightarrow> string" where
  "strip s = rev (dropWhile is_space (rev (dropWhile is_space s)))"

text \<open>
  The pattern \<^verbatim>\<open>^([+-]\d+\.\d+)([+-]\d+\.\d+)([+-]\d+\.?\d*)?/?$\<close>, read left to
  right. Every digit run is followed in the pattern by something that is not a digit, so a
  match takes each run whole and the groups of a match are determined: the matcher below
  returns them, or \<open>None\<close> when \<open>re.match\<close> returns no match. Below 256 \<^verbatim>\<open>\d\<close> is
  0-9. The subject is stripped, so \<^verbatim>\<open>$\<close> is the end of the string.
\<close>

definition is_digit :: "char \<Rightarrow> bool" where
  "is_digit c = (let n = (of_char c :: nat) in 48 \<le> n \<and> n \<le> 57)"

definition is_sign :: "char \<Rightarrow> bool" where
  "is_sign c = (c = CHR ''+'' \<or> c = CHR ''-'')"

text \<open>\<^verbatim>\<open>[+-]\d+\.\d+\<close> at the front: the text matched and what follows it.\<close>

definition match_signed_decimal :: "string \<Rightarrow> (string \<times> string) option" where
  "match_signed_decimal s =
     (case s of
        [] \<Rightarrow> None
      | c # r \<Rightarrow>
          if \<not> is_sign c \<or> takeWhile is_digit r = [] then None
          else (case dropWhile is_digit r of
                  [] \<Rightarrow> None
                | d # r2 \<Rightarrow>
                    if d \<noteq> CHR ''.'' \<or> takeWhile is_digit r2 = [] then None
                    else Some (c # takeWhile is_digit r @ CHR ''.'' # takeWhile is_digit r2,
                               dropWhile is_digit r2)))"

text \<open>\<^verbatim>\<open>[+-]\d+\.?\d*\<close> at the front.\<close>

definition match_altitude :: "string \<Rightarrow> (string \<times> string) option" where
  "match_altitude s =
     (case s of
        [] \<Rightarrow> None
      | c # r \<Rightarrow>
          if \<not> is_sign c \<or> takeWhile is_digit r = [] then None
          else (case dropWhile is_digit r of
                  [] \<Rightarrow> Some (c # takeWhile is_digit r, [])
                | d # r2 \<Rightarrow>
                    if d = CHR ''.''
                    then Some (c # takeWhile is_digit r @ CHR ''.'' # takeWhile is_digit r2,
                               dropWhile is_digit r2)
                    else Some (c # takeWhile is_digit r, d # r2)))"

text \<open>The whole pattern: groups 1, 2 and 3 (\<open>None\<close> for a group that took no part).\<close>

definition iso6709_match :: "string \<Rightarrow> (string \<times> string \<times> string option) option" where
  "iso6709_match s =
     (case match_signed_decimal s of
        None \<Rightarrow> None
      | Some (g1, r1) \<Rightarrow>
          (case match_signed_decimal r1 of
             None \<Rightarrow> None
           | Some (g2, r2) \<Rightarrow>
               if r2 = [] \<or> r2 = ''/'' then Some (g1, g2, None)
               else (case match_altitude r2 of
                       None \<Rightarrow> None
                     | Some (g3, r3) \<Rightarrow>
                         if r3 = [] \<or> r3 = ''/'' then Some (g1, g2, Some g3) else None)))"

text \<open>
  The same pattern as a set of strings with their groups: a sign, digits, a point and
  digits, twice; then optionally a sign, digits and optionally a point and more digits;
  then optionally a slash. The matcher above is shown below to accept exactly these
  strings with exactly these groups.
\<close>

definition digit_run :: "string \<Rightarrow> bool" where
  "digit_run ds = (ds \<noteq> [] \<and> list_all is_digit ds)"

definition signed_decimal_text :: "string \<Rightarrow> bool" where
  "signed_decimal_text t =
     (\<exists>c ds fs. t = c # ds @ CHR ''.'' # fs \<and> is_sign c \<and> digit_run ds \<and> digit_run fs)"

definition altitude_text :: "string \<Rightarrow> bool" where
  "altitude_text t =
     (\<exists>c ds fs. is_sign c \<and> digit_run ds \<and> list_all is_digit fs
        \<and> (t = c # ds \<or> t = c # ds @ CHR ''.'' # fs))"

definition iso6709_pattern :: "string \<Rightarrow> string \<Rightarrow> string \<Rightarrow> string option \<Rightarrow> bool" where
  "iso6709_pattern s g1 g2 g3 =
     (signed_decimal_text g1 \<and> signed_decimal_text g2
      \<and> (case g3 of None \<Rightarrow> True | Some a \<Rightarrow> altitude_text a)
      \<and> (s = g1 @ g2 @ (case g3 of None \<Rightarrow> [] | Some a \<Rightarrow> a)
          \<or> s = g1 @ g2 @ (case g3 of None \<Rightarrow> [] | Some a \<Rightarrow> a) @ ''/''))"

text \<open>What follows a digit run: the end, or a character that is not a digit.\<close>

definition no_digit_ahead :: "string \<Rightarrow> bool" where
  "no_digit_ahead r = (case r of [] \<Rightarrow> True | c # _ \<Rightarrow> \<not> is_digit c)"

text \<open>
  \<open>parse_iso6709\<close> on a string. A \<open>float\<close> that raises ValueError is caught by the
  \<open>except\<close> clause, which returns None.
\<close>

definition parse_iso6709 :: "py_env \<Rightarrow> string \<Rightarrow> GPSData option" where
  "parse_iso6709 env location_string =
     (if location_string = [] then None
      else (case iso6709_match (strip location_string) of
              None \<Rightarrow> None
            | Some (g1, g2, g3) \<Rightarrow>
                (case float_of_str env g1 of
                   None \<Rightarrow> None
                 | Some lat \<Rightarrow>
                     (case float_of_str env g2 of
                        None \<Rightarrow> None
                      | Some lon \<Rightarrow>
                          (case (case g3 of
                                   Some a \<Rightarrow> (if a \<noteq> [] then float_of_str env a
                                              else Some (Finite 0))
                                 | None \<Rightarrow> Some (Finite 0)) of
                             None \<Rightarrow> None
                           | Some alt \<Rightarrow>
                               Some \<lparr> latitude = lat, longitude = lon, altitude = alt,
                                      accuracy = None \<rparr>)))))"






section \<open>exif\_writer.py\<close>

text \<open>Float operations the writer uses. \<open>int(x)\<close> truncates towards zero.\<close>

fun py_abs :: "pyfloat \<Rightarrow> pyfloat" where
  "py_abs (Finite r) = Finite \<bar>r\<bar>"
| "py_abs PosInf = PosInf"
| "py_abs NegInf = PosInf"
| "py_abs NaN = NaN"

fun py_ge0 :: "pyfloat \<Rightarrow> bool" where
  "py_ge0 (Finite r) = (0 \<le> r)"
| "py_ge0 PosInf = True"
| "py_ge0 NegInf = False"
| "py_ge0 NaN = False"

fun py_int :: "pyfloat \<Rightarrow> py_exception + int" where
  "py_int (Finite r) = Inr (if 0 \<le> r then \<lfloor>r\<rfloor> else \<lceil>r\<rceil>)"
| "py_int NaN = Inl ValueError"
| "py_int PosInf = Inl OverflowError"
| "py_int NegInf = Inl OverflowError"

fun py_sub_int :: "pyfloat \<Rightarrow> int \<Rightarrow> pyfloat" where
  "py_sub_int (Finite r) i = Finite (r - of_int i)"
| "py_sub_int x i = x"

fun py_mul_int :: "pyfloat \<Rightarrow> int \<Rightarrow> pyfloat" where
  "py_mul_int (Finite r) i = Finite (r * of_int i)"
| "py_mul_int NaN i = NaN"
| "py_mul_int PosInf i = (if 0 < i then PosInf else if i < 0 then NegInf else NaN)"
| "py_mul_int NegInf i = (if 0 < i then NegInf else if i < 0 then PosInf else NaN)"

type_synonym rational = "int \<times> int"

definition decimal_to_dms :: "pyfloat \<Rightarrow> py_exception + rational \<times> rational \<times> rational" where
  "decimal_to_dms decimal_degrees0 =
     (let decimal_degrees = py_abs decimal_degrees0
      in case py_int decimal_degrees of
           Inl e \<Rightarrow> Inl e
         | Inr degrees \<Rightarrow>
             (let minutes_float = py_mul_int (py_sub_int decimal_degrees degrees) 60
              in case py_int minutes_float of
                   Inl e \<Rightarrow> Inl e
                 | Inr minutes \<Rightarrow>
                     (let seconds = py_mul_int (py_sub_int minutes_float minutes) 60
                      in case py_int (py_mul_int seconds 100) of
                           Inl e \<Rightarrow> Inl e
                         | Inr s100 \<Rightarrow> Inr ((degrees, 1), (minutes, 1), (s100, 100)))))"

text \<open>The attributes of \<open>piexif.GPSIFD\<close> the writer uses, and any other tag.\<close>

datatype exif_tag =
    GPSLatitudeRef | GPSLatitude | GPSLongitudeRef | GPSLongitude
  | GPSAltitudeRef | GPSAltitude | GPSHPositioningError
  | OtherTag nat

datatype exif_value =
    EBytes string
  | EInt int
  | ERational rational
  | EDms "rational \<times> rational \<times> rational"
  | EOther string

datatype exif_entry = Ifd "exif_tag \<rightharpoonup> exif_value" | Thumbnail "string option"

type_synonym exif_dict = "string \<rightharpoonup> exif_entry"

record exif_env =
  path_exists :: "string \<Rightarrow> bool"
    \<comment> \<open>\<open>os.path.exists\<close>\<close>
  piexif_load :: "string \<Rightarrow> py_exception + exif_dict"
  piexif_dump :: "exif_dict \<Rightarrow> py_exception + string"
  piexif_insert :: "string \<Rightarrow> string \<Rightarrow> py_exception + unit"

text \<open>The lines that fill \<open>gps_ifd\<close>, in the order of the source.\<close>

definition build_gps_ifd :: "GPSData \<Rightarrow> py_exception + (exif_tag \<rightharpoonup> exif_value)" where
  "build_gps_ifd gps =
     (let lat_ref = (if py_ge0 (latitude gps) then ''N'' else ''S'')
      in case decimal_to_dms (latitude gps) of
           Inl e \<Rightarrow> Inl e
         | Inr lat_dms \<Rightarrow>
     (let lon_ref = (if py_ge0 (longitude gps) then ''E'' else ''W'')
      in case decimal_to_dms (longitude gps) of
           Inl e \<Rightarrow> Inl e
         | Inr lon_dms \<Rightarrow>
     (let alt_ref = (if py_ge0 (altitude gps) then 0 else 1)
      in case py_int (py_mul_int (py_abs (altitude gps)) 100) of
           Inl e \<Rightarrow> Inl e
         | Inr alt100 \<Rightarrow>
     (let gps_ifd = [GPSLatitudeRef \<mapsto> EBytes lat_ref,
                     GPSLatitude \<mapsto> EDms lat_dms,
                     GPSLongitudeRef \<mapsto> EBytes lon_ref,
                     GPSLongitude \<mapsto> EDms lon_dms,
                     GPSAltitudeRef \<mapsto> EInt alt_ref,
                     GPSAltitude \<mapsto> ERational (alt100, 100)]
      in case accuracy gps of
           None \<Rightarrow> Inr gps_ifd
         | Some acc \<Rightarrow>
             (case py_int (py_mul_int acc 100) of
                Inl e \<Rightarrow> Inl e
              | Inr acc100 \<Rightarrow>
                  Inr (gps_ifd(GPSHPositioningError \<mapsto> ERational (acc100, 100))))))))"

definition empty_exif_dict :: exif_dict where
  "empty_exif_dict =
     [''0th'' \<mapsto> Ifd Map.empty, ''Exif'' \<mapsto> Ifd Map.empty, ''GPS'' \<mapsto> Ifd Map.empty,
      ''1st'' \<mapsto> Ifd Map.empty, ''thumbnail'' \<mapsto> Thumbnail None]"

text \<open>
  The inner \<open>try\<close>: \<open>piexif.load\<close>, with InvalidImageDataError answered by the empty
  structure; any other exception goes on to the outer handler.
\<close>

definition load_exif_or_empty :: "exif_env \<Rightarrow> string \<Rightarrow> py_exception + exif_dict" where
  "load_exif_or_empty env jpeg_path =
     (case piexif_load env jpeg_path of
        Inr d \<Rightarrow> Inr d
      | Inl e \<Rightarrow> (if e = InvalidImageDataError then Inr empty_exif_dict else Inl e))"

text \<open>
  The body of the outer \<open>try\<close> block. The second component is the effect on the file:
  the EXIF structure whose dump \<open>piexif.insert\<close> has written into \<open>jpeg_path\<close>, \<open>None\<close>
  when the call did not get that far.
\<close>

definition embed_gps_in_jpeg_try ::
  "exif_env \<Rightarrow> string \<Rightarrow> GPSData \<Rightarrow> py_exception + bool \<times> exif_dict option" where
  "embed_gps_in_jpeg_try env jpeg_path gps =
     (case load_exif_or_empty env jpeg_path of
        Inl e \<Rightarrow> Inl e
      | Inr exif_dict0 \<Rightarrow>
          (case build_gps_ifd gps of
             Inl e \<Rightarrow> Inl e
           | Inr gps_ifd \<Rightarrow>
               (let exif_dict1 = exif_dict0(''GPS'' \<mapsto> Ifd gps_ifd)
                in case piexif_dump env exif_dict1 of
                     Inl e \<Rightarrow> Inl e
                   | Inr exif_bytes \<Rightarrow>
                       (case piexif_insert env exif_bytes jpeg_path of
                          Inl e \<Rightarrow> Inl e
                        | Inr u \<Rightarrow> Inr (True, Some exif_dict1)))))"

text \<open>
  \<open>embed_gps_in_jpeg\<close>: \<open>except Exception\<close> catches every exception of the model (all are
  subclasses of \<open>Exception\<close>); the result type keeps the exceptional outcome so that
  "never raises" is a statement about the function.
\<close>

definition embed_gps_in_jpeg ::
  "exif_env \<Rightarrow> string \<Rightarrow> GPSData \<Rightarrow> (py_exception + bool) \<times> exif_dict option" where
  "embed_gps_in_jpeg env jpeg_path gps =
     (if \<not> path_exists env jpeg_path then (Inr False, None)
      else (case embed_gps_in_jpeg_try env jpeg_path gps of
              Inr (b, written) \<Rightarrow> (Inr b, written)
            | Inl e \<Rightarrow> (Inr False, None)))"

section \<open>Frame Selector\<close>

text \<open>
  Modelled from the spec: the Frame Selector (\<open>frame_selector.py\<close>, imported by
  \<open>processing/__init__.py\<close>) is not among the sources. The definitions below follow
  section 3 (data model) and section 4.3 (algorithm, steps 1 to 4) of the specification.
  Where the specification leaves a choice open, the choice made is said at the definition.
  The audit mapping \<open>reason_discarded\<close> of a Selection Result is left out.
\<close>

datatype candidate_status = Pending | Scored | Unusable

record candidate =
  sequence_index :: nat
  source_timestamp :: real
  file_path :: string
  sharpness_score :: "real option"
  status :: candidate_status

text \<open>A candidate is Usable when it has been scored: status Scored, with its score.\<close>

definition usable :: "candidate \<Rightarrow> bool" where
  "usable c = (status c = Scored \<and> sharpness_score c \<noteq> None)"

definition usable_count :: "candidate list \<Rightarrow> nat" where
  "usable_count cs = length (filter usable cs)"

text \<open>
  Step 1: \<open>K\<close> contiguous windows whose sizes differ by at most one. The specification
  does not say which windows take the larger size; here the first \<open>N mod K\<close> do.
\<close>

fun split_windows :: "nat \<Rightarrow> nat \<Rightarrow> nat \<Rightarrow> 'a list \<Rightarrow> 'a list list" where
  "split_windows 0 q r xs = []"
| "split_windows (Suc k) q r xs =
     (let n = (if 0 < r then Suc q else q)
      in take n xs # split_windows k q (r - 1) (drop n xs))"

definition windows :: "nat \<Rightarrow> 'a list \<Rightarrow> 'a list list" where
  "windows K xs = split_windows K (length xs div K) (length xs mod K) xs"

text \<open>
  Step 2: the Usable candidate of a window with the maximum score, the lowest
  \<open>sequence_index\<close> among equals. Step 3: a window without a Usable candidate gives
  \<open>None\<close> and its quota goes to no other window.
\<close>

definition beats :: "candidate \<Rightarrow> candidate \<Rightarrow> bool" where
  "beats c b =
     (case (sharpness_score c, sharpness_score b) of
        (Some x, Some y) \<Rightarrow> y < x \<or> (x = y \<and> sequence_index c < sequence_index b)
      | _ \<Rightarrow> False)"

fun best_in_window :: "candidate list \<Rightarrow> candidate option" where
  "best_in_window [] = None"
| "best_in_window (c # cs) =
     (case best_in_window cs of
        None \<Rightarrow> (if usable c then Some c else None)
      | Some b \<Rightarrow> (if usable c \<and> beats c b then Some c else Some b))"

text \<open>
  Step 4, run only when a minimum gap is configured: of two selections from adjacent
  windows whose timestamps are closer than the gap, the lower-scoring one is dropped.
  The specification does not say which goes when the scores are equal; here the later
  one, as in the tie-break of step 2. A window whose selection was dropped counts as
  empty for the window after it.
\<close>

definition score_less :: "candidate \<Rightarrow> candidate \<Rightarrow> bool" where
  "score_less a b =
     (case (sharpness_score a, sharpness_score b) of
        (Some x, Some y) \<Rightarrow> x < y
      | _ \<Rightarrow> False)"

fun drop_near_duplicates :: "real \<Rightarrow> candidate option list \<Rightarrow> candidate option list" where
  "drop_near_duplicates g (Some a # Some b # rest) =
     (if \<bar>source_timestamp b - source_timestamp a\<bar> < g
      then (if score_less a b
            then None # drop_near_duplicates g (Some b # rest)
            else Some a # drop_near_duplicates g (None # rest))
      else Some a # drop_near_duplicates g (Some b # rest))"
| "drop_near_duplicates g (x # rest) = x # drop_near_duplicates g rest"
| "drop_near_duplicates g [] = []"

fun chosen :: "'a option list \<Rightarrow> 'a list" where
  "chosen [] = []"
| "chosen (None # ps) = chosen ps"
| "chosen (Some c # ps) = c # chosen ps"

datatype selector_error = InvalidTargetCount

record selector_config =
  min_gap :: "real option"

record selection_result =
  selected_indices :: "nat list"

definition select_frames ::
  "selector_config \<Rightarrow> int \<Rightarrow> candidate list \<Rightarrow> selector_error + selection_result" where
  "select_frames cfg K cs =
     (if K \<le> 0 then Inl InvalidTargetCount
      else (let picks = map best_in_window (windows (nat K) cs);
                kept = (case min_gap cfg of
                          None \<Rightarrow> picks
                        | Some g \<Rightarrow> drop_near_duplicates g picks)
            in Inr \<lparr> selected_indices = map sequence_index (chosen kept) \<rparr>))"

text \<open>The windows of a selection that hold a Usable candidate.\<close>

definition windows_with_usable :: "nat \<Rightarrow> candidate list \<Rightarrow> nat" where
  "windows_with_usable K cs = length (filter (list_ex usable) (windows K cs))"

section \<open>Probe outcomes and tags\<close>







section \<open>Example inputs\<close>

text \<open>A \<open>float\<close> for plain signed decimals, enough for the examples.\<close>

definition digits_value :: "string \<Rightarrow> nat" where
  "digits_value ds = foldl (\<lambda>acc c. 10 * acc + (of_char c - 48)) 0 ds"

definition decimal_float_of_str :: "string \<Rightarrow> pyfloat option" where
  "decimal_float_of_str s =
     (let neg = (take 1 s = ''-'');
          body = (if take 1 s = ''-'' \<or> take 1 s = ''+'' then drop 1 s else s);
          ip = takeWhile is_digit body;
          fp = drop 1 (dropWhile is_digit body)
      in if ip = [] \<or> \<not> list_all is_digit fp
            \<or> (dropWhile is_digit body \<noteq> [] \<and> take 1 (dropWhile is_digit body) \<noteq> ''.'')
         then None
         else Some (Finite ((if neg then - 1 else 1) *
                 (real (digits_value ip) + real (digits_value fp) / 10 ^ length fp))))"

text \<open>An environment whose probe always ends the same way.\<close>

definition fixed_env :: "py_exception + completed_process \<Rightarrow> json option \<Rightarrow> py_env" where
  "fixed_env outcome data =
     \<lparr> os_name = ''posix'', normpath = (\<lambda>p. p),
       subprocess_run = (\<lambda>cmd t. outcome),
       json_loads = (\<lambda>s. data),
       float_of_str = decimal_float_of_str,
       str_of_json = (\<lambda>v. ''?'') \<rparr>"

definition fixed_exif_env ::
  "bool \<Rightarrow> py_exception + exif_dict \<Rightarrow> py_exception + string \<Rightarrow> py_exception + unit
     \<Rightarrow> exif_env" where
  "fixed_exif_env ex ld dp ins =
     \<lparr> path_exists = (\<lambda>p. ex), piexif_load = (\<lambda>p. ld),
       piexif_dump = (\<lambda>d. dp), piexif_insert = (\<lambda>b p. ins) \<rparr>"



text \<open>
  A position in the southern and eastern hemispheres, below sea level; and a JPEG without
  EXIF data that every piexif call accepts.
\<close>

definition sydney_below_sea :: GPSData where
  "sydney_below_sea =
     \<lparr> latitude = Finite (- (67 / 2)), longitude = Finite (605 / 4),
       altitude = Finite (- 5), accuracy = None \<rparr>"


text \<open>
  The candidates of the specification's scenarios: scenario A has 100 Usable candidates
  with scores 1 to 100, scenario B has 10 candidates of which those at 3 and 7 are
  Unusable.
\<close>

definition scored_frame :: "nat \<Rightarrow> real \<Rightarrow> candidate" where
  "scored_frame i sc = \<lparr> sequence_index = i, source_timestamp = real i, file_path = [],
                          sharpness_score = Some sc, status = Scored \<rparr>"

definition unusable_frame :: "nat \<Rightarrow> candidate" where
  "unusable_frame i = \<lparr> sequence_index = i, source_timestamp = real i, file_path = [],
                         sharpness_score = None, status = Unusable \<rparr>"

definition scenario_b :: "candidate list" where
  "scenario_b = [scored_frame 0 5, scored_frame 1 5, scored_frame 2 5, unusable_frame 3,
                 scored_frame 4 5, scored_frame 5 5, scored_frame 6 5, unusable_frame 7,
                 scored_frame 8 5, scored_frame 9 5]"

definition rising_frame :: "nat \<Rightarrow> candidate" where
  "rising_frame i = scored_frame i (real (i + 1))"

definition scenario_a :: "candidate list" where
  "scenario_a = map rising_frame [0..<100]"

text \<open>Four candidates in extraction order; the first two could not be scored.\<close>

definition defective_front :: "candidate list" where
  "defective_front =
     [\<lparr> sequence_index = 0, source_timestamp = 0, file_path = ''f0.jpg'',
        sharpness_score = None, status = Unusable \<rparr>,
      \<lparr> sequence_index = 1, source_timestamp = 1, file_path = ''f1.jpg'',
        sharpness_score = None, status = Unusable \<rparr>,
      \<lparr> sequence_index = 2, source_timestamp = 2, file_path = ''f2.jpg'',
        sharpness_score = Some 10, status = Scored \<rparr>,
      \<lparr> sequence_index = 3, source_timestamp = 3, file_path = ''f3.jpg'',
        sharpness_score = Some 20, status = Scored \<rparr>]"

section \<open>Properties of colorspace.py\<close>

lemma lower_examples:
  "lower ''BT2020'' = ''bt2020''"
  "lower ''gamma22'' = ''gamma22''"
  by code_simp+

text \<open>
  Claim C3. For every input string, each of the three mapping functions (colour primaries,
  transfer function, colour matrix) returns a variant of its enum: the variant listed for
  the lower-cased string when it is one of the keys, and the Unknown variant for every
  other string, the empty string included. The functions are total on strings: nothing
  in them raises and none returns null.
\<close>

theorem categorical_mappers_total:
  "map_color_primaries [] = CP_UNKNOWN \<and> map_transfer_function [] = TF_UNKNOWN
   \<and> map_color_matrix [] = CM_UNKNOWN
   \<and> map_color_primaries v =
       (if lower v = ''bt709'' then CP_BT709
        else if lower v = ''bt2020'' then CP_BT2020
        else if lower v = ''smpte432'' then CP_DISPLAY_P3
        else CP_UNKNOWN)
   \<and> map_transfer_function v =
       (if lower v = ''bt709'' then TF_BT709
        else if lower v = ''iec61966-2-1'' then TF_SRGB
        else if lower v = ''smpte2084'' then TF_PQ
        else if lower v = ''arib-std-b67'' then TF_HLG
        else TF_UNKNOWN)
   \<and> map_color_matrix v =
       (if lower v = ''bt709'' then CM_BT709
        else if lower v = ''bt2020nc'' then CM_BT2020_NCL
        else if lower v = ''bt2020c'' then CM_BT2020_CL
        else CM_UNKNOWN)"
  by (auto simp: map_color_primaries_def map_transfer_function_def map_color_matrix_def
        lower_def)

theorem categorical_mappers_total_witness:
  "map_color_primaries ''BT2020'' = CP_BT2020
   \<and> map_transfer_function ''gamma22'' = TF_UNKNOWN
   \<and> map_color_matrix [] = CM_UNKNOWN"
  using categorical_mappers_total [of "''BT2020''"] categorical_mappers_total [of "''gamma22''"]
  by (simp add: lower_examples)

text \<open>
  When \<open>build_colorspace_filter\<close> returns None: exactly for an info that is not flagged
  HDR and whose primaries are BT.709 or unknown. For an info whose HDR flag agrees with
  its transfer function, as every parsed info does, that is exactly "no conversion
  needed".
\<close>

lemma build_colorspace_filter_None_iff:
  "fst (build_colorspace_filter env info cache) = Inr None
     \<longleftrightarrow> \<not> is_hdr info \<and> color_primaries info \<in> {CP_BT709, CP_UNKNOWN}"
  by (cases "color_primaries info")
     (auto simp: build_colorspace_filter_def needs_conversion_def is_wide_gamut_sdr_def
        split: prod.splits sum.splits)

lemma build_colorspace_filter_None_consistent:
  "is_hdr info = (transfer_function info \<in> {TF_PQ, TF_HLG}) \<Longrightarrow>
   fst (build_colorspace_filter env info cache) = Inr None \<longleftrightarrow> \<not> needs_conversion info"
  by (cases "color_primaries info"; cases "transfer_function info")
     (auto simp: build_colorspace_filter_def needs_conversion_def is_wide_gamut_sdr_def
        split: prod.splits sum.splits)

text \<open>
  Claim C2 (the code at the input where it departs from the claim). The info with BT.709
  primaries, PQ transfer and \<open>is_hdr = False\<close> needs conversion, and
  \<open>build_colorspace_filter\<close> returns None for it, in every environment and process state.
\<close>

theorem build_colorspace_filter_misses_unflagged_hdr:
  "needs_conversion \<lparr> color_primaries = CP_BT709, transfer_function = TF_PQ,
       color_matrix = CM_BT709, is_hdr = False, max_luminance = None \<rparr>
   \<and> build_colorspace_filter env \<lparr> color_primaries = CP_BT709, transfer_function = TF_PQ,
       color_matrix = CM_BT709, is_hdr = False, max_luminance = None \<rparr> cache
     = (Inr None, cache)"
  by (simp add: needs_conversion_def build_colorspace_filter_def is_wide_gamut_sdr_def)

text \<open>
  Claim C7 as stated fails: with the same colour info and the same environment (ffmpeg is
  missing, so a probe answers False), a fresh process and a process whose cache holds True
  get different filters.
\<close>

theorem zscale_flag_is_process_state_counterexample:
  "fst (build_colorspace_filter (fixed_env (Inl FileNotFoundError) None)
          \<lparr> color_primaries = CP_BT2020, transfer_function = TF_PQ,
            color_matrix = CM_BT2020_NCL, is_hdr = True, max_luminance = None \<rparr> None)
   \<noteq> fst (build_colorspace_filter (fixed_env (Inl FileNotFoundError) None)
          \<lparr> color_primaries = CP_BT2020, transfer_function = TF_PQ,
            color_matrix = CM_BT2020_NCL, is_hdr = True, max_luminance = None \<rparr> (Some True))"
  by (simp add: build_colorspace_filter_def needs_conversion_def build_hdr_to_sdr_filter_def
        is_zscale_available_def check_zscale_available_def fixed_env_def)

text \<open>
  Claim C7, amended. The zscale flag is process state: \<open>build_colorspace_filter\<close> takes
  the colour info only. For an HDR info, a set cache decides the result whatever the
  environment would answer and stays as it is, and with an empty cache the result is the
  one for the probe's answer, which the call stores. For an info that is not HDR the
  result is the same in every process state and environment, and the state is untouched.
\<close>

theorem build_colorspace_filter_reads_cache:
  "(is_hdr info \<longrightarrow>
      build_colorspace_filter env info (Some b) = build_colorspace_filter env' info (Some b)
      \<and> snd (build_colorspace_filter env info (Some b)) = Some b
      \<and> (check_zscale_available env = Inr b \<longrightarrow>
           build_colorspace_filter env info None = build_colorspace_filter env info (Some b)))
   \<and> (\<not> is_hdr info \<longrightarrow>
        fst (build_colorspace_filter env info cache)
          = fst (build_colorspace_filter env' info cache')
        \<and> snd (build_colorspace_filter env info cache) = cache)"
  by (auto simp: build_colorspace_filter_def needs_conversion_def build_hdr_to_sdr_filter_def
        is_zscale_available_def split: prod.splits sum.splits)

lemma missing_ffmpeg_probe:
  "check_zscale_available (fixed_env (Inl FileNotFoundError) None) = Inr False"
  by (simp add: check_zscale_available_def fixed_env_def)

theorem build_colorspace_filter_reads_cache_witness:
  "build_colorspace_filter (fixed_env (Inl FileNotFoundError) None)
      \<lparr> color_primaries = CP_BT2020, transfer_function = TF_PQ,
        color_matrix = CM_BT2020_NCL, is_hdr = True, max_luminance = None \<rparr> None
   = build_colorspace_filter (fixed_env (Inl FileNotFoundError) None)
      \<lparr> color_primaries = CP_BT2020, transfer_function = TF_PQ,
        color_matrix = CM_BT2020_NCL, is_hdr = True, max_luminance = None \<rparr> (Some False)
   \<and> snd (build_colorspace_filter (fixed_env (Inl FileNotFoundError) None)
      \<lparr> color_primaries = CP_BT2020, transfer_function = TF_PQ,
        color_matrix = CM_BT2020_NCL, is_hdr = True, max_luminance = None \<rparr> (Some False))
     = Some False"
  using build_colorspace_filter_reads_cache
    [of "\<lparr> color_primaries = CP_BT2020, transfer_function = TF_PQ,
           color_matrix = CM_BT2020_NCL, is_hdr = True, max_luminance = None \<rparr>"
        "fixed_env (Inl FileNotFoundError) None" False
        "fixed_env (Inl FileNotFoundError) None"]
    missing_ffmpeg_probe
  by simp









section \<open>Properties of gps\_extractor.py\<close>

lemma not_digit_chars:
  "\<not> is_digit CHR ''.''" "\<not> is_digit CHR ''/''" "\<not> is_digit CHR ''+''" "\<not> is_digit CHR ''-''"
  by (simp_all add: is_digit_def)

lemma sign_not_digit: "is_sign c \<Longrightarrow> \<not> is_digit c \<and> c \<noteq> CHR ''/'' \<and> c \<noteq> CHR ''.''"
  by (auto simp: is_sign_def not_digit_chars)

lemma span_digits:
  assumes "list_all is_digit ds" "no_digit_ahead r"
  shows "takeWhile is_digit (ds @ r) = ds" "dropWhile is_digit (ds @ r) = r"
proof -
  from assms(2) have "takeWhile is_digit r = []" "dropWhile is_digit r = r"
    by (cases r; simp add: no_digit_ahead_def)+
  with assms(1) show "takeWhile is_digit (ds @ r) = ds" "dropWhile is_digit (ds @ r) = r"
    by (simp_all add: takeWhile_append2 dropWhile_append2 list_all_iff)
qed

lemma span_digits_split:
  "takeWhile is_digit r @ dropWhile is_digit r = r
   \<and> list_all is_digit (takeWhile is_digit r) \<and> no_digit_ahead (dropWhile is_digit r)"
proof -
  have "no_digit_ahead (dropWhile is_digit r)"
    by (induction r) (simp_all add: no_digit_ahead_def)
  moreover have "list_all is_digit (takeWhile is_digit r)"
    by (induction r) simp_all
  ultimately show ?thesis by simp
qed

lemma match_signed_decimal_complete:
  assumes "is_sign c" "digit_run ds" "digit_run fs" "no_digit_ahead r"
  shows "match_signed_decimal (c # ds @ CHR ''.'' # fs @ r) = Some (c # ds @ CHR ''.'' # fs, r)"
proof -
  have d: "no_digit_ahead (CHR ''.'' # fs @ r)"
    by (simp add: no_digit_ahead_def not_digit_chars)
  from assms(2) d have 1: "takeWhile is_digit (ds @ CHR ''.'' # fs @ r) = ds"
      "dropWhile is_digit (ds @ CHR ''.'' # fs @ r) = CHR ''.'' # fs @ r"
    by (simp_all add: span_digits digit_run_def)
  from assms(3,4) have 2: "takeWhile is_digit (fs @ r) = fs" "dropWhile is_digit (fs @ r) = r"
    by (simp_all add: span_digits digit_run_def)
  from assms(1,2,3) 1 2 show ?thesis
    by (simp add: match_signed_decimal_def digit_run_def)
qed

lemma match_signed_decimal_sound:
  assumes "match_signed_decimal s = Some (t, r)"
  shows "signed_decimal_text t \<and> s = t @ r \<and> no_digit_ahead r"
proof -
  from assms obtain c r0 where s: "s = c # r0" and c: "is_sign c"
      and ds: "takeWhile is_digit r0 \<noteq> []"
    by (cases s) (auto simp: match_signed_decimal_def split: if_splits)
  from assms s c ds obtain r2 where r1: "dropWhile is_digit r0 = CHR ''.'' # r2"
      and fs: "takeWhile is_digit r2 \<noteq> []"
      and t: "t = c # takeWhile is_digit r0 @ CHR ''.'' # takeWhile is_digit r2"
      and r: "r = dropWhile is_digit r2"
    by (auto simp: match_signed_decimal_def split: if_splits list.splits)
  have "r0 = takeWhile is_digit r0 @ CHR ''.'' # r2"
    using span_digits_split [of r0] r1 by simp
  moreover have "r2 = takeWhile is_digit r2 @ r"
    using span_digits_split [of r2] r by simp
  ultimately have "s = t @ r" using s t by simp
  moreover have "signed_decimal_text t"
    unfolding signed_decimal_text_def digit_run_def
    using t c ds fs span_digits_split [of r0] span_digits_split [of r2] by blast
  moreover have "no_digit_ahead r"
    using span_digits_split [of r2] r by simp
  ultimately show ?thesis by simp
qed

lemma match_altitude_complete_plain:
  assumes "is_sign c" "digit_run ds" "r = [] \<or> r = ''/''"
  shows "match_altitude (c # ds @ r) = Some (c # ds, r)"
proof -
  from assms(3) have n: "no_digit_ahead r"
    by (auto simp: no_digit_ahead_def not_digit_chars)
  from assms(2) n have 1: "takeWhile is_digit (ds @ r) = ds" "dropWhile is_digit (ds @ r) = r"
    by (simp_all add: span_digits digit_run_def)
  from assms 1 show ?thesis
    by (auto simp: match_altitude_def digit_run_def)
qed

lemma match_altitude_complete_dot:
  assumes "is_sign c" "digit_run ds" "list_all is_digit fs" "r = [] \<or> r = ''/''"
  shows "match_altitude (c # ds @ CHR ''.'' # fs @ r) = Some (c # ds @ CHR ''.'' # fs, r)"
proof -
  from assms(4) have n: "no_digit_ahead r"
    by (auto simp: no_digit_ahead_def not_digit_chars)
  have d: "no_digit_ahead (CHR ''.'' # fs @ r)"
    by (simp add: no_digit_ahead_def not_digit_chars)
  from assms(2) d have 1: "takeWhile is_digit (ds @ CHR ''.'' # fs @ r) = ds"
      "dropWhile is_digit (ds @ CHR ''.'' # fs @ r) = CHR ''.'' # fs @ r"
    by (simp_all add: span_digits digit_run_def)
  from assms(3) n have 2: "takeWhile is_digit (fs @ r) = fs" "dropWhile is_digit (fs @ r) = r"
    by (simp_all add: span_digits)
  from assms(1,2) 1 2 show ?thesis
    by (simp add: match_altitude_def digit_run_def)
qed

lemma match_altitude_sound:
  assumes "match_altitude s = Some (t, r)"
  shows "altitude_text t \<and> s = t @ r"
proof -
  from assms obtain c r0 where s: "s = c # r0" and c: "is_sign c"
      and ds: "takeWhile is_digit r0 \<noteq> []"
    by (cases s) (auto simp: match_altitude_def split: if_splits)
  have sp: "takeWhile is_digit r0 @ dropWhile is_digit r0 = r0"
      "list_all is_digit (takeWhile is_digit r0)"
    using span_digits_split [of r0] by simp_all
  show ?thesis
  proof (cases "dropWhile is_digit r0")
    case Nil
    with assms s c ds have "t = c # takeWhile is_digit r0" "r = []"
      by (auto simp: match_altitude_def)
    moreover have "r0 = takeWhile is_digit r0"
      using Nil by (metis takeWhile_dropWhile_id append_Nil2)
    moreover have "is_sign c \<and> digit_run (takeWhile is_digit r0) \<and> list_all is_digit []"
      using c ds sp(2) by (simp add: digit_run_def)
    ultimately have "altitude_text t" "s = t @ r"
      unfolding altitude_text_def using s by (blast, simp)
    then show ?thesis by simp
  next
    case (Cons d r2)
    show ?thesis
    proof (cases "d = CHR ''.''")
      case True
      with assms s c ds Cons
      have t: "t = c # takeWhile is_digit r0 @ CHR ''.'' # takeWhile is_digit r2"
        and r: "r = dropWhile is_digit r2"
        by (auto simp: match_altitude_def)
      have "r0 = takeWhile is_digit r0 @ CHR ''.'' # r2"
        using sp(1) Cons True by simp
      moreover have "r2 = takeWhile is_digit r2 @ r"
        using span_digits_split [of r2] r by simp
      ultimately have "s = t @ r" using s t by simp
      moreover have "altitude_text t"
        unfolding altitude_text_def digit_run_def
        using t c ds sp(2) span_digits_split [of r2] by blast
      ultimately show ?thesis by simp
    next
      case False
      with assms s c ds Cons have "t = c # takeWhile is_digit r0" "r = d # r2"
        by (auto simp: match_altitude_def)
      moreover from Cons sp have "r0 = takeWhile is_digit r0 @ d # r2" by simp
      moreover have "is_sign c \<and> digit_run (takeWhile is_digit r0) \<and> list_all is_digit []"
        using c ds sp(2) by (simp add: digit_run_def)
      ultimately have "altitude_text t" "s = t @ r"
        unfolding altitude_text_def using s by (blast, simp)
      then show ?thesis by simp
    qed
  qed
qed

lemma signed_decimal_text_head:
  "signed_decimal_text t \<Longrightarrow> no_digit_ahead (t @ r) \<and> t @ r \<noteq> [] \<and> t @ r \<noteq> ''/''"
  by (auto simp: signed_decimal_text_def no_digit_ahead_def dest: sign_not_digit)

lemma altitude_text_head:
  "altitude_text t \<Longrightarrow> no_digit_ahead (t @ r) \<and> t @ r \<noteq> [] \<and> t @ r \<noteq> ''/''"
  by (auto simp: altitude_text_def no_digit_ahead_def dest: sign_not_digit)

lemma match_signed_decimal_text:
  assumes "signed_decimal_text t" "no_digit_ahead r"
  shows "match_signed_decimal (t @ r) = Some (t, r)"
  using assms match_signed_decimal_complete
  by (auto simp: signed_decimal_text_def)

lemma match_altitude_text:
  assumes "altitude_text t" "r = [] \<or> r = ''/''"
  shows "match_altitude (t @ r) = Some (t, r)"
proof -
  from assms(1) obtain c ds fs where c: "is_sign c" and ds: "digit_run ds"
      and fs: "list_all is_digit fs"
      and t: "t = c # ds \<or> t = c # ds @ CHR ''.'' # fs"
    unfolding altitude_text_def by blast
  from t show ?thesis
  proof
    assume "t = c # ds"
    with match_altitude_complete_plain [OF c ds assms(2)] show ?thesis by simp
  next
    assume "t = c # ds @ CHR ''.'' # fs"
    with match_altitude_complete_dot [OF c ds fs assms(2)] show ?thesis by simp
  qed
qed

text \<open>
  The matcher and the pattern agree: the matcher returns the groups \<open>g1\<close>, \<open>g2\<close>, \<open>g3\<close>
  for a string exactly when the string is in the language of the pattern with these
  groups. The groups of a string are therefore unique, and no order of trying alternatives
  can give \<open>re.match\<close> other groups.
\<close>

lemma iso6709_match_is_pattern:
  "iso6709_match s = Some (g1, g2, g3) \<longleftrightarrow> iso6709_pattern s g1 g2 g3"
proof
  assume m: "iso6709_match s = Some (g1, g2, g3)"
  from m obtain r1 where 1: "match_signed_decimal s = Some (g1, r1)"
    by (auto simp: iso6709_match_def split: option.splits if_splits)
  with m obtain r2 where 2: "match_signed_decimal r1 = Some (g2, r2)"
    by (auto simp: iso6709_match_def split: option.splits if_splits)
  note a = match_signed_decimal_sound [OF 1] match_signed_decimal_sound [OF 2]
  show "iso6709_pattern s g1 g2 g3"
  proof (cases "r2 = [] \<or> r2 = ''/''")
    case True
    with m 1 2 have "g3 = None" by (auto simp: iso6709_match_def)
    with a True show ?thesis by (auto simp: iso6709_pattern_def)
  next
    case False
    with m 1 2 obtain g r3 where 3: "match_altitude r2 = Some (g, r3)"
        and g: "g3 = Some g" and r3: "r3 = [] \<or> r3 = ''/''"
      by (auto simp: iso6709_match_def split: option.splits if_splits)
    from match_altitude_sound [OF 3] a g r3 show ?thesis
      by (auto simp: iso6709_pattern_def)
  qed
next
  assume p: "iso6709_pattern s g1 g2 g3"
  define a where "a = (case g3 of None \<Rightarrow> [] | Some x \<Rightarrow> x)"
  from p obtain sl where sl: "sl = [] \<or> sl = ''/''" and s: "s = g1 @ g2 @ a @ sl"
    and g1: "signed_decimal_text g1" and g2: "signed_decimal_text g2"
    by (auto simp: iso6709_pattern_def a_def)
  have tail: "no_digit_ahead (a @ sl)"
  proof (cases g3)
    case None
    with sl show ?thesis by (auto simp: a_def no_digit_ahead_def not_digit_chars)
  next
    case (Some x)
    with p have "altitude_text x" by (simp add: iso6709_pattern_def)
    from altitude_text_head [OF this] Some show ?thesis by (simp add: a_def)
  qed
  from signed_decimal_text_head [OF g2] have "no_digit_ahead (g2 @ a @ sl)" by simp
  from match_signed_decimal_text [OF g1 this] s
  have 1: "match_signed_decimal s = Some (g1, g2 @ a @ sl)" by simp
  from match_signed_decimal_text [OF g2 tail]
  have 2: "match_signed_decimal (g2 @ a @ sl) = Some (g2, a @ sl)" .
  show "iso6709_match s = Some (g1, g2, g3)"
  proof (cases g3)
    case None
    with sl 1 2 show ?thesis by (auto simp: iso6709_match_def a_def)
  next
    case (Some x)
    with p have x: "altitude_text x" by (simp add: iso6709_pattern_def)
    from altitude_text_head [OF x, of sl] have "x @ sl \<noteq> []" "x @ sl \<noteq> ''/''" by simp_all
    moreover from match_altitude_text [OF x sl] have "match_altitude (x @ sl) = Some (x, sl)" .
    ultimately show ?thesis using 1 2 Some sl
      by (auto simp: iso6709_match_def a_def)
  qed
qed

lemma iso6709_match_None_iff:
  "iso6709_match s = None \<longleftrightarrow> (\<forall>g1 g2 g3. \<not> iso6709_pattern s g1 g2 g3)"
proof -
  have "iso6709_match s = None \<longleftrightarrow> (\<forall>g. iso6709_match s \<noteq> Some g)"
    by (cases "iso6709_match s") simp_all
  also have "\<dots> \<longleftrightarrow> (\<forall>g1 g2 g3. iso6709_match s \<noteq> Some (g1, g2, g3))"
    by auto
  finally show ?thesis by (simp add: iso6709_match_is_pattern)
qed

text \<open>
  Claim C10. \<open>parse_iso6709\<close> returns None for the empty string and for every string
  that, stripped, is not in the language of the pattern. Every GPS value it returns has
  accuracy None, and when the string has no altitude group the altitude is the float 0.0.
\<close>

theorem parse_iso6709_no_altitude:
  "(s = [] \<or> (\<forall>g1 g2 g3. \<not> iso6709_pattern (strip s) g1 g2 g3)
      \<longrightarrow> parse_iso6709 env s = None)
   \<and> (parse_iso6709 env s = Some g \<longrightarrow> accuracy g = None)
   \<and> (parse_iso6709 env s = Some g \<and> iso6709_pattern (strip s) g1 g2 None
        \<longrightarrow> altitude g = Finite 0)"
  by (auto simp: parse_iso6709_def iso6709_match_None_iff [symmetric]
        iso6709_match_is_pattern [symmetric] split: option.splits if_splits)

lemma strip_example: "strip '' +50.8019+012.9069/ '' = ''+50.8019+012.9069/''"
  by (simp add: strip_def is_space_def)

lemma match_example:
  "iso6709_match ''+50.8019+012.9069/'' = Some (''+50.8019'', ''+012.9069'', None)"
  by (simp add: iso6709_match_def match_signed_decimal_def is_digit_def is_sign_def)

lemma float_examples:
  "decimal_float_of_str ''+50.8019'' = Some (Finite (508019 / 10000))"
  "decimal_float_of_str ''+012.9069'' = Some (Finite (129069 / 10000))"
  by (simp_all add: decimal_float_of_str_def digits_value_def is_digit_def)

lemma parse_example:
  "parse_iso6709 (fixed_env (Inl TimeoutExpired) None) '' +50.8019+012.9069/ ''
     = Some \<lparr> latitude = Finite (508019 / 10000), longitude = Finite (129069 / 10000),
              altitude = Finite 0, accuracy = None \<rparr>"
  by (simp add: parse_iso6709_def strip_example match_example float_examples fixed_env_def)

theorem parse_iso6709_no_altitude_witness:
  "altitude \<lparr> latitude = Finite (508019 / 10000), longitude = Finite (129069 / 10000),
              altitude = Finite 0, accuracy = None \<rparr> = Finite 0
   \<and> parse_iso6709 (fixed_env (Inl TimeoutExpired) None) ''somewhere'' = None"
proof -
  have "iso6709_match (strip ''somewhere'') = None"
    by (simp add: strip_def is_space_def iso6709_match_def match_signed_decimal_def is_sign_def)
  then have m: "\<forall>g1 g2 g3. \<not> iso6709_pattern (strip ''somewhere'') g1 g2 g3"
    by (simp add: iso6709_match_None_iff)
  have p: "iso6709_pattern (strip '' +50.8019+012.9069/ '') ''+50.8019'' ''+012.9069'' None"
    using match_example by (simp add: strip_example iso6709_match_is_pattern)
  from parse_iso6709_no_altitude [of "''somewhere''" "fixed_env (Inl TimeoutExpired) None"] m
  have "parse_iso6709 (fixed_env (Inl TimeoutExpired) None) ''somewhere'' = None" by blast
  moreover
  from parse_iso6709_no_altitude
         [of "'' +50.8019+012.9069/ ''" "fixed_env (Inl TimeoutExpired) None"
             "\<lparr> latitude = Finite (508019 / 10000), longitude = Finite (129069 / 10000),
                altitude = Finite 0, accuracy = None \<rparr>" "''+50.8019''" "''+012.9069''"]
       parse_example p
  have "altitude \<lparr> latitude = Finite (508019 / 10000), longitude = Finite (129069 / 10000),
              altitude = Finite 0, accuracy = None \<rparr> = Finite 0"
    by simp
  ultimately show ?thesis by blast
qed












section \<open>Properties of exif\_writer.py\<close>

text \<open>
  Claim C6. \<open>embed_gps_in_jpeg\<close> always returns a boolean and raises nothing. It returns
  False when the file does not exist, and True exactly when the file exists and every step
  went through: the EXIF data was loaded (or \<open>piexif.load\<close> raised InvalidImageDataError,
  which the code answers with an empty structure), the GPS IFD was built, and
  \<open>piexif.dump\<close> and \<open>piexif.insert\<close> returned. A failure of any of these steps gives
  False.
\<close>

theorem embed_gps_in_jpeg_returns_bool:
  "(\<exists>b. fst (embed_gps_in_jpeg env jpeg_path gps) = Inr b)
   \<and> (\<not> path_exists env jpeg_path \<longrightarrow> embed_gps_in_jpeg env jpeg_path gps = (Inr False, None))
   \<and> (fst (embed_gps_in_jpeg env jpeg_path gps) = Inr True \<longleftrightarrow>
        path_exists env jpeg_path
        \<and> (\<exists>d ifd bytes.
              load_exif_or_empty env jpeg_path = Inr d
              \<and> build_gps_ifd gps = Inr ifd
              \<and> piexif_dump env (d(''GPS'' \<mapsto> Ifd ifd)) = Inr bytes
              \<and> piexif_insert env bytes jpeg_path = Inr ()))"
  by (auto simp: embed_gps_in_jpeg_def embed_gps_in_jpeg_try_def Let_def
        split: sum.splits prod.splits)















theorem embed_gps_in_jpeg_returns_bool_witness:
  "embed_gps_in_jpeg (fixed_exif_env False (Inl InvalidImageDataError) (Inr []) (Inr ()))
       ''missing.jpg'' sydney_below_sea = (Inr False, None)
   \<and> fst (embed_gps_in_jpeg (fixed_exif_env True (Inl OSError) (Inr []) (Inr ()))
       ''locked.jpg'' sydney_below_sea) \<noteq> Inr True"
proof -
  have l: "load_exif_or_empty (fixed_exif_env True (Inl OSError) (Inr []) (Inr ())) ''locked.jpg''
             = Inl OSError"
    by (simp add: load_exif_or_empty_def fixed_exif_env_def)
  have m: "\<not> path_exists (fixed_exif_env False (Inl InvalidImageDataError) (Inr []) (Inr ()))
                ''missing.jpg''"
    by (simp add: fixed_exif_env_def)
  from embed_gps_in_jpeg_returns_bool
         [of "fixed_exif_env False (Inl InvalidImageDataError) (Inr []) (Inr ())"
             "''missing.jpg''" sydney_below_sea] m
  have "embed_gps_in_jpeg (fixed_exif_env False (Inl InvalidImageDataError) (Inr []) (Inr ()))
       ''missing.jpg'' sydney_below_sea = (Inr False, None)"
    by blast
  moreover
  from embed_gps_in_jpeg_returns_bool
         [of "fixed_exif_env True (Inl OSError) (Inr []) (Inr ())" "''locked.jpg''"
             sydney_below_sea] l
  have "fst (embed_gps_in_jpeg (fixed_exif_env True (Inl OSError) (Inr []) (Inr ()))
       ''locked.jpg'' sydney_below_sea) \<noteq> Inr True"
    by simp
  ultimately show ?thesis by blast
qed


section \<open>Properties of the Frame Selector\<close>

lemma length_split_windows: "length (split_windows k q r xs) = k"
  by (induction k arbitrary: r xs) (simp_all add: Let_def)

lemma concat_split_windows:
  "concat (split_windows k q r xs) = take (k * q + min r k) xs"
proof (induction k arbitrary: r xs)
  case 0
  then show ?case by simp
next
  case (Suc k)
  define n where "n = (if 0 < r then Suc q else q)"
  have "concat (split_windows (Suc k) q r xs)
          = take n xs @ take (k * q + min (r - 1) k) (drop n xs)"
    by (simp add: Let_def n_def Suc)
  also have "\<dots> = take (n + (k * q + min (r - 1) k)) xs"
    by (simp add: take_add)
  also have "n + (k * q + min (r - 1) k) = Suc k * q + min r (Suc k)"
    by (cases r) (simp_all add: n_def)
  finally show ?case .
qed

lemma length_windows: "length (windows K xs) = K"
  by (simp add: windows_def length_split_windows)

lemma concat_windows:
  assumes "0 < K"
  shows "concat (windows K xs) = xs"
proof -
  have "length xs mod K < K" using assms by simp
  then have "K * (length xs div K) + min (length xs mod K) K = length xs"
    by (simp add: min_def)
  then show ?thesis
    by (simp add: windows_def concat_split_windows)
qed

lemma best_in_window_None_iff: "best_in_window w = None \<longleftrightarrow> \<not> list_ex usable w"
  by (induction w) (auto split: option.splits)

lemma best_in_window_Some:
  "best_in_window w = Some c \<Longrightarrow> usable c \<and> c \<in> set w"
  by (induction w arbitrary: c) (auto split: option.splits if_splits)

lemma chosen_Cons:
  "chosen (p # ps) = (case p of None \<Rightarrow> chosen ps | Some c \<Rightarrow> c # chosen ps)"
  by (cases p) simp_all

lemma length_chosen: "length (chosen ps) = length (filter (\<lambda>p. p \<noteq> None) ps)"
  by (induction ps rule: chosen.induct) simp_all

lemma length_chosen_best:
  "length (chosen (map best_in_window ws)) = length (filter (list_ex usable) ws)"
proof (induction ws)
  case Nil
  then show ?case by simp
next
  case (Cons w ws)
  show ?case
  proof (cases "best_in_window w")
    case None
    with Cons show ?thesis by (simp add: best_in_window_None_iff [symmetric])
  next
    case (Some c)
    then have "list_ex usable w"
      using best_in_window_None_iff [of w] by simp
    with Cons Some show ?thesis by simp
  qed
qed

lemma windows_with_filter_le:
  "length (filter (list_ex P) ws) \<le> length (filter P (concat ws))"
proof (induction ws)
  case Nil
  then show ?case by simp
next
  case (Cons w ws)
  show ?case
  proof (cases "list_ex P w")
    case True
    then have "filter P w \<noteq> []"
      by (induction w) auto
    then have "Suc 0 \<le> length (filter P w)"
      by (cases "filter P w") simp_all
    with Cons have "Suc (length (filter (list_ex P) ws))
                      \<le> length (filter P w) + length (filter P (concat ws))"
      by linarith
    with True show ?thesis by simp
  next
    case False
    with Cons show ?thesis by simp
  qed
qed

lemma length_chosen_drop_near_duplicates:
  "length (chosen (drop_near_duplicates g ps)) \<le> length (chosen ps)"
  by (induction g ps rule: drop_near_duplicates.induct)
     (auto simp: chosen_Cons split: option.splits)

lemma set_chosen_best:
  "set (chosen (map best_in_window ws)) \<subseteq> set (filter usable (concat ws))"
proof (induction ws)
  case Nil
  then show ?case by simp
next
  case (Cons w ws)
  then show ?case
    using best_in_window_Some [of w]
    by (cases "best_in_window w") auto
qed

lemma set_chosen_drop_near_duplicates:
  "set (chosen (drop_near_duplicates g ps)) \<subseteq> set (chosen ps)"
  by (induction g ps rule: drop_near_duplicates.induct)
     (auto simp: chosen_Cons split: option.splits)

text \<open>
  Claim C1, amended. For every candidate sequence and every target count \<open>K > 0\<close> the
  Frame Selector returns a Selection Result, never an error. Its size is at most
  \<open>min(K, count of Usable candidates)\<close>, in particular at most \<open>K\<close>; every selected
  index is the index of a Usable candidate; and when no minimum gap is configured the size
  is the number of windows that hold a Usable candidate.
\<close>

theorem select_frames_size:
  assumes "0 < K"
  shows "\<exists>r. select_frames cfg K cs = Inr r
           \<and> length (selected_indices r) \<le> min (nat K) (usable_count cs)
           \<and> set (selected_indices r) \<subseteq> sequence_index ` set (filter usable cs)
           \<and> (min_gap cfg = None \<longrightarrow>
                length (selected_indices r) = windows_with_usable (nat K) cs)"
proof -
  let ?ws = "windows (nat K) cs"
  let ?picks = "map best_in_window ?ws"
  have k: "0 < nat K" using assms by simp
  have a: "length (chosen ?picks) = windows_with_usable (nat K) cs"
    by (simp add: length_chosen_best windows_with_usable_def)
  have "windows_with_usable (nat K) cs \<le> length ?ws"
    by (simp add: windows_with_usable_def)
  then have b: "windows_with_usable (nat K) cs \<le> nat K"
    by (simp add: length_windows)
  have "windows_with_usable (nat K) cs \<le> length (filter usable (concat ?ws))"
    unfolding windows_with_usable_def by (rule windows_with_filter_le)
  then have c: "windows_with_usable (nat K) cs \<le> usable_count cs"
    by (simp add: concat_windows [OF k] usable_count_def)
  have d: "set (chosen ?picks) \<subseteq> set (filter usable cs)"
    using set_chosen_best [of ?ws] by (simp add: concat_windows [OF k])
  show ?thesis
  proof (cases "min_gap cfg")
    case None
    with assms a b c d show ?thesis
      by (simp add: select_frames_def image_mono)
  next
    case (Some g)
    have "length (chosen (drop_near_duplicates g ?picks)) \<le> length (chosen ?picks)"
      by (rule length_chosen_drop_near_duplicates)
    moreover have "set (chosen (drop_near_duplicates g ?picks)) \<subseteq> set (filter usable cs)"
      using set_chosen_drop_near_duplicates [of g ?picks] d by blast
    ultimately show ?thesis
      using assms a b c Some
      by (simp add: select_frames_def image_mono)
  qed
qed

lemma split_windows_two:
  "split_windows 2 q 0 xs = [take q xs, take q (drop q xs)]"
  by (simp add: numeral_2_eq_2)

lemma defective_front_windows:
  "windows 2 defective_front = [take 2 defective_front, take 2 (drop 2 defective_front)]"
proof -
  have "length defective_front = 4"
    by (simp add: defective_front_def)
  then have "windows 2 defective_front = split_windows 2 2 0 defective_front"
    by (simp add: windows_def)
  then show ?thesis by (simp only: split_windows_two)
qed

lemma defective_front_picks:
  "map best_in_window (windows 2 defective_front)
     = [None, Some \<lparr> sequence_index = 3, source_timestamp = 3, file_path = ''f3.jpg'',
                      sharpness_score = Some 20, status = Scored \<rparr>]"
  by (simp add: defective_front_windows)
     (simp add: defective_front_def usable_def beats_def)

lemma defective_front_selection:
  "select_frames \<lparr> min_gap = None \<rparr> 2 defective_front = Inr \<lparr> selected_indices = [3] \<rparr>"
  by (simp add: select_frames_def defective_front_picks)

lemma defective_front_usable: "usable_count defective_front = 2"
  by (simp add: usable_count_def defective_front_def usable_def)

text \<open>
  Claim C1 as stated fails: four candidates, the first two Unusable, \<open>K = 2\<close>. The first
  window holds no Usable candidate, so one frame is selected, while
  \<open>min(K, count of Usable candidates)\<close> is 2.
\<close>

theorem select_frames_size_counterexample:
  "select_frames \<lparr> min_gap = None \<rparr> 2 defective_front = Inr \<lparr> selected_indices = [3] \<rparr>
   \<and> length [3 :: nat] \<noteq> min (nat 2) (usable_count defective_front)"
  by (simp add: defective_front_selection defective_front_usable)

theorem select_frames_size_witness:
  "\<exists>r. select_frames \<lparr> min_gap = None \<rparr> 2 defective_front = Inr r
        \<and> length (selected_indices r) \<le> min (nat 2) (usable_count defective_front)"
  using select_frames_size [of 2 "\<lparr> min_gap = None \<rparr>" defective_front] by auto

subsection \<open>The scenarios of the specification\<close>

text \<open>
  The model gives what section 8 of the specification expects: scenario A selects the
  indices 19, 39, 59, 79 and 99; scenario B selects the eight Usable candidates; scenario C
  (\<open>K = 0\<close>) is the error InvalidTargetCount.
\<close>

lemma usable_frames [simp]: "usable (scored_frame i sc)" "\<not> usable (unusable_frame i)"
  by (simp_all add: usable_def scored_frame_def unusable_frame_def)

lemma index_frames [simp]:
  "sequence_index (scored_frame i sc) = i" "sequence_index (unusable_frame i) = i"
  by (simp_all add: scored_frame_def unusable_frame_def)

lemma split_windows_unit:
  "split_windows (length xs) 1 0 xs = map (\<lambda>x. [x]) xs"
  by (induction xs) (simp_all add: Let_def)

lemma scenario_b_windows: "windows 10 scenario_b = map (\<lambda>x. [x]) scenario_b"
proof -
  have l: "length scenario_b = 10" by (simp add: scenario_b_def)
  then have "windows 10 scenario_b = split_windows (length scenario_b) 1 0 scenario_b"
    by (simp add: windows_def)
  then show ?thesis by (simp only: split_windows_unit)
qed

lemma scenario_b_selection:
  "select_frames \<lparr> min_gap = None \<rparr> 10 scenario_b
     = Inr \<lparr> selected_indices = [0, 1, 2, 4, 5, 6, 8, 9] \<rparr>"
  by (simp add: select_frames_def scenario_b_windows) (simp add: scenario_b_def)


lemma rising_frame_simps [simp]:
  "usable (rising_frame i)" "sequence_index (rising_frame i) = i"
  by (simp_all add: rising_frame_def)

lemma beats_later_frame: "i < j \<Longrightarrow> \<not> beats (rising_frame i) (rising_frame j)"
  by (simp add: beats_def rising_frame_def scored_frame_def)

lemma best_in_rising_window:
  "best_in_window (map rising_frame [a..<b])
     = (if a < b then Some (rising_frame (b - 1)) else None)"
proof (induction "b - a" arbitrary: a)
  case 0
  then show ?case by simp
next
  case (Suc n)
  then have ab: "a < b" and n: "n = b - Suc a" by simp_all
  from ab have u: "[a..<b] = a # [Suc a..<b]" by (rule upt_conv_Cons)
  show ?case
  proof (cases "Suc a < b")
    case True
    with Suc.hyps(1) [OF n] beats_later_frame [of a "b - 1"] u ab show ?thesis
      by simp
  next
    case False
    with ab have "b = Suc a" by simp
    with u show ?thesis by simp
  qed
qed

lemma split_windows_five:
  "split_windows 5 q 0 xs =
     [take q xs, take q (drop q xs), take q (drop q (drop q xs)),
      take q (drop q (drop q (drop q xs))), take q (drop q (drop q (drop q (drop q xs))))]"
proof -
  have "split_windows (Suc (Suc (Suc (Suc (Suc 0))))) q 0 xs =
     [take q xs, take q (drop q xs), take q (drop q (drop q xs)),
      take q (drop q (drop q (drop q xs))), take q (drop q (drop q (drop q (drop q xs))))]"
    by (simp add: Let_def)
  moreover have "(5 :: nat) = Suc (Suc (Suc (Suc (Suc 0))))" by simp
  ultimately show ?thesis by (simp only:)
qed

lemma scenario_a_length: "length scenario_a = 100"
  by (simp add: scenario_a_def del: upt_rec_numeral)

lemma scenario_a_windows:
  "windows 5 scenario_a =
      map (map rising_frame) [[0..<20], [20..<40], [40..<60], [60..<80], [80..<100]]"
proof -
  have "windows 5 scenario_a = split_windows 5 20 0 scenario_a"
    by (simp add: windows_def scenario_a_length)
  then show ?thesis
    by (simp add: split_windows_five scenario_a_def take_map drop_map del: upt_rec_numeral)
qed

lemma scenario_a_selection:
  "select_frames \<lparr> min_gap = None \<rparr> 5 scenario_a
     = Inr \<lparr> selected_indices = [19, 39, 59, 79, 99] \<rparr>"
  by (simp add: select_frames_def scenario_a_windows best_in_rising_window
        del: upt_rec_numeral)

lemma scenario_c_invalid_target:
  "select_frames cfg 0 cs = Inl InvalidTargetCount"
  by (simp add: select_frames_def)

end
